theory Spec2Isabelle
  imports Complex_Main
begin

section \<open>Call-centre simulation: data model\<close>

text \<open>
  The program \<^verbatim>\<open>call_center_sim_with_csv.py\<close> runs a discrete-event simulation of a
  call centre: an arrival generator creates callers, every caller asks for one of a fixed
  number of agents, is served and leaves, and a sampler records the queue length once per
  time unit.  The three process bodies \<^verbatim>\<open>customer\<close>, \<^verbatim>\<open>generate_customers\<close> and
  \<^verbatim>\<open>watch_queue\<close> and the driver \<^verbatim>\<open>run_simulation\<close> are embedded from the source.
  The scheduler, the event queue and the resource come from the SimPy library and the
  exponential variates from Python's \<^verbatim>\<open>random\<close> module; neither is part of the
  repository, so they are modelled from the specification (sections 3, 4.1 and 4.3) and
  from the documented contract of \<^verbatim>\<open>random.expovariate\<close>.

  Python numbers are idealised: times and averages are exact rationals instead of
  floating-point values, counters are unbounded integers.  Python's built-in
  \<^verbatim>\<open>round\<close>, whose result on a float is not determined by the exact value alone, is a
  parameter of the model.  Console output (\<^verbatim>\<open>print\<close>) and the CSV file of the main
  program are not modelled.
\<close>

datatype error = ZeroDivisionError | InvalidDelay | ClockRegression

text \<open>The arguments of \<^verbatim>\<open>run_simulation\<close> (source line 60).\<close>

record config =
  sim_time :: rat
  num_agents :: int
  arrival_gap :: rat
  service_time :: rat
  seed :: int

text \<open>The dictionary \<^verbatim>\<open>stats\<close> of source lines 66 to 71.\<close>

record stats =
  arrived_calls :: int
  finished_calls :: int
  wait_times :: "rat list"
  queue_sizes :: "int list"

text \<open>
  Modelled from the spec: the event of section 3, \<^verbatim>\<open>{ due_time, sequence, resume }\<close>,
  ordered by the key \<^verbatim>\<open>(due_time, sequence)\<close>.  A process handle is the index of the
  process in the scheduler's process table.
\<close>

record event =
  due_time :: rat
  sequence :: nat
  resume :: nat

text \<open>
  Modelled from the spec: the pending request and the resource of section 3,
  \<^verbatim>\<open>{ requester, enqueue_time }\<close> and \<^verbatim>\<open>{ capacity, in_use, wait_queue }\<close>.
\<close>

record pending_request =
  requester :: nat
  enqueue_time :: rat

record resource =
  capacity :: int
  in_use :: int
  wait_queue :: "pending_request list"

text \<open>
  The suspended generators of the source as state machines.  Each constructor is one
  point at which the generator is waiting to be resumed, with the local variables that are
  live there:
  \<^item> \<open>Generator_new\<close>: \<^verbatim>\<open>generate_customers\<close> created, body not entered;
  \<^item> \<open>Generator_waiting i\<close>: \<^verbatim>\<open>generate_customers\<close> suspended at line 40 with counter \<open>i\<close>;
  \<^item> \<open>Sampler\<close>: \<^verbatim>\<open>watch_queue\<close> created, or suspended at line 53;
  \<^item> \<open>Caller_new i\<close>: \<^verbatim>\<open>customer\<close> number \<open>i\<close> created, body not entered;
  \<^item> \<open>Caller_queued i t\<close>: suspended at line 16 without an agent, \<^verbatim>\<open>arrival_time = t\<close>;
  \<^item> \<open>Caller_in_service i\<close>: suspended at line 24, holding an agent;
  \<^item> \<open>Finished\<close>: the body has returned.
\<close>

datatype process =
    Generator_new
  | Generator_waiting int
  | Sampler
  | Caller_new int
  | Caller_queued int rat
  | Caller_in_service int
  | Finished

text \<open>
  The state of Python's global generator: the seed it was last seeded with and the number
  of variates drawn since.  A \<open>generator\<close> gives, for a seed and a call number, the value
  of \<^verbatim>\<open>-log(1 - random())\<close> of that call; it is a parameter of the model.
\<close>

record rng =
  rng_seed :: int
  rng_calls :: nat

type_synonym generator = "int \<Rightarrow> nat \<Rightarrow> rat"

text \<open>
  The simulation state: the environment (clock, event queue, sequence counter, process
  table), the resource \<^verbatim>\<open>agents\<close>, the statistics and the random generator.
\<close>

record sim_state =
  now :: rat
  event_queue :: "event list"
  next_sequence :: nat
  procs :: "process list"
  agents :: resource
  statistics :: stats
  random_state :: rng

datatype step_result = Halt | Fault error | Continue sim_state

text \<open>The dictionary returned by \<^verbatim>\<open>run_simulation\<close> (source lines 94 to 102).\<close>

record output_record =
  Agents :: int
  Average_Wait :: rat
  Average_Queue_Length :: rat
  Throughput :: rat
  Utilization :: rat
  Arrived_Calls :: int
  Finished_Calls :: int

text \<open>The four metrics computed at source lines 80 to 92, before rounding.\<close>

record metrics =
  avg_wait :: rat
  avg_queue :: rat
  throughput :: rat
  utilization :: rat

section \<open>Random variates\<close>

text \<open>\<^verbatim>\<open>random.seed(seed)\<close>: the previous state of the global generator is discarded.\<close>

definition random_seed :: "int \<Rightarrow> rng \<Rightarrow> rng" where
  "random_seed sd r = \<lparr>rng_seed = sd, rng_calls = 0\<rparr>"

text \<open>
  \<^verbatim>\<open>random.expovariate(lambd)\<close>.  Python documents it as
  \<^verbatim>\<open>-log(1 - random()) / lambd\<close> with \<^verbatim>\<open>lambd\<close> nonzero: the result is non-negative for a
  positive rate and non-positive for a negative one.  Every call advances the generator.
\<close>

definition expovariate :: "generator \<Rightarrow> rat \<Rightarrow> rng \<Rightarrow> error + (rat \<times> rng)" where
  "expovariate g lambd r =
     (if lambd = 0 then Inl ZeroDivisionError
      else Inr (g (rng_seed r) (rng_calls r) / lambd, r\<lparr>rng_calls := rng_calls r + 1\<rparr>))"

text \<open>
  The expression \<^verbatim>\<open>random.expovariate(1 / mean)\<close> of source lines 24 and 40: the
  division \<^verbatim>\<open>1 / mean\<close> raises ZeroDivisionError for a zero mean.
\<close>

definition next_exponential :: "generator \<Rightarrow> rat \<Rightarrow> rng \<Rightarrow> error + (rat \<times> rng)" where
  "next_exponential g mean r =
     (if mean = 0 then Inl ZeroDivisionError else expovariate g (1 / mean) r)"

section \<open>Event queue and scheduler\<close>

text \<open>
  Modelled from the spec: the ordering key \<^verbatim>\<open>(due_time, sequence)\<close> of section 3; the
  sequence number is the strict tie-break between events due at the same time.
\<close>

definition earlier :: "event \<Rightarrow> event \<Rightarrow> bool" where
  "earlier a b \<longleftrightarrow>
     due_time a < due_time b \<or> (due_time a = due_time b \<and> sequence a \<le> sequence b)"

text \<open>
  Modelled from the spec: extraction of the minimum \<^verbatim>\<open>(due_time, sequence)\<close> event
  (section 4.1).  The queue is kept as a list; the result is the minimum and the queue
  without it.
\<close>

fun pop_min :: "event list \<Rightarrow> (event \<times> event list) option" where
  "pop_min [] = None"
| "pop_min (e # es) =
     (case pop_min es of
        None \<Rightarrow> Some (e, [])
      | Some (m, rest) \<Rightarrow> if earlier e m then Some (e, es) else Some (m, e # rest))"

text \<open>
  Modelled from the spec: insertion of a wake-up for process \<open>p\<close> at time \<open>t\<close>.  The
  sequence counter is assigned when the event is scheduled and then incremented
  (section 4.1).
\<close>

definition enqueue :: "nat \<Rightarrow> rat \<Rightarrow> sim_state \<Rightarrow> sim_state" where
  "enqueue p t s =
     s\<lparr>event_queue := event_queue s @ [\<lparr>due_time = t, sequence = next_sequence s, resume = p\<rparr>],
       next_sequence := next_sequence s + 1\<rparr>"

text \<open>
  Modelled from the spec: \<^verbatim>\<open>schedule(process, delay)\<close> of section 4.1, which inserts an
  event at \<^verbatim>\<open>current_time + delay\<close> and fails with InvalidDelay for a negative delay.
  In the source this is \<^verbatim>\<open>yield env.timeout(delay)\<close>.
\<close>

definition schedule :: "nat \<Rightarrow> rat \<Rightarrow> sim_state \<Rightarrow> error + sim_state" where
  "schedule p delay s =
     (if delay < 0 then Inl InvalidDelay else Inr (enqueue p (now s + delay) s))"

text \<open>
  Modelled from the spec: creation of a process (\<^verbatim>\<open>env.process(...)\<close> in the source).
  The new process gets the next handle and is made ready at the current time.
\<close>

definition spawn :: "process \<Rightarrow> sim_state \<Rightarrow> sim_state" where
  "spawn pr s = enqueue (length (procs s)) (now s) (s\<lparr>procs := procs s @ [pr]\<rparr>)"

definition set_proc :: "nat \<Rightarrow> process \<Rightarrow> sim_state \<Rightarrow> sim_state" where
  "set_proc p pr s = s\<lparr>procs := (procs s)[p := pr]\<rparr>"

section \<open>Resource\<close>

text \<open>
  Modelled from the spec: \<^verbatim>\<open>request()\<close> of section 4.3.  If \<^verbatim>\<open>in_use < capacity\<close> the
  request is granted at once (\<open>True\<close>); otherwise a pending request is appended to the
  tail of the wait queue and the caller has to suspend (\<open>False\<close>).
\<close>

definition request :: "nat \<Rightarrow> rat \<Rightarrow> resource \<Rightarrow> bool \<times> resource" where
  "request p t r =
     (if in_use r < capacity r then (True, r\<lparr>in_use := in_use r + 1\<rparr>)
      else (False, r\<lparr>wait_queue := wait_queue r @ [\<lparr>requester = p, enqueue_time = t\<rparr>]\<rparr>))"

text \<open>
  Modelled from the spec: \<^verbatim>\<open>release()\<close> of section 4.3.  It decrements \<^verbatim>\<open>in_use\<close>; if
  the wait queue is non-empty it pops the head, grants it the capacity and names that
  requester for resumption.
\<close>

definition release :: "resource \<Rightarrow> nat option \<times> resource" where
  "release r =
     (let r1 = r\<lparr>in_use := in_use r - 1\<rparr> in
      case wait_queue r1 of
        [] \<Rightarrow> (None, r1)
      | q # qs \<Rightarrow> (Some (requester q), r1\<lparr>wait_queue := qs, in_use := in_use r1 + 1\<rparr>))"

section \<open>The processes of the source\<close>

text \<open>
  \<^verbatim>\<open>yield env.timeout(random.expovariate(1 / mean))\<close>: draw the delay, then schedule the
  wake-up of process \<open>p\<close>.
\<close>

definition hold :: "generator \<Rightarrow> nat \<Rightarrow> rat \<Rightarrow> sim_state \<Rightarrow> error + sim_state" where
  "hold g p mean s =
     (case next_exponential g mean (random_state s) of
        Inl e \<Rightarrow> Inl e
      | Inr (d, r) \<Rightarrow> schedule p d (s\<lparr>random_state := r\<rparr>))"

text \<open>
  \<^verbatim>\<open>generate_customers\<close> (source lines 36 to 43), one resumption.  The first one enters
  the loop and waits; every later one increments \<open>i\<close>, creates the caller, counts the
  arrival and waits again.
\<close>

definition generate_customers ::
  "config \<Rightarrow> generator \<Rightarrow> nat \<Rightarrow> int option \<Rightarrow> sim_state \<Rightarrow> error + sim_state" where
  "generate_customers c g p st s =
     (case st of
        None \<Rightarrow> hold g p (arrival_gap c) (set_proc p (Generator_waiting 0) s)
      | Some i \<Rightarrow>
          (let i' = i + 1;
               s1 = spawn (Caller_new i') s;
               s2 = s1\<lparr>statistics := (statistics s1)\<lparr>arrived_calls := arrived_calls (statistics s1) + 1\<rparr>\<rparr>
           in hold g p (arrival_gap c) (set_proc p (Generator_waiting i') s2)))"

text \<open>
  \<^verbatim>\<open>watch_queue\<close> (source lines 50 to 53), one iteration: append the length of the
  resource's queue, then wait for \<^verbatim>\<open>sample_time\<close>.
\<close>

definition watch_queue :: "nat \<Rightarrow> rat \<Rightarrow> sim_state \<Rightarrow> error + sim_state" where
  "watch_queue p sample_time s =
     schedule p sample_time
       (s\<lparr>statistics := (statistics s)\<lparr>queue_sizes :=
            queue_sizes (statistics s) @ [int (length (wait_queue (agents s)))]\<rparr>\<rparr>)"

text \<open>
  Source lines 19 to 24 of \<^verbatim>\<open>customer\<close>: the agent has been granted; record the wait,
  then hold for the service time.
\<close>

definition start_call :: "config \<Rightarrow> generator \<Rightarrow> nat \<Rightarrow> int \<Rightarrow> rat \<Rightarrow> sim_state \<Rightarrow> error + sim_state" where
  "start_call c g p i arrival_time s =
     (let wait = now s - arrival_time;
          s1 = s\<lparr>statistics := (statistics s)\<lparr>wait_times := wait_times (statistics s) @ [wait]\<rparr>\<rparr>
      in hold g p (service_time c) (set_proc p (Caller_in_service i) s1))"

text \<open>
  Source lines 27 to 28 and the exit of the \<^verbatim>\<open>with\<close> block: count the finished call,
  release the agent and resume the requester that the release names.
\<close>

definition end_call :: "nat \<Rightarrow> sim_state \<Rightarrow> sim_state" where
  "end_call p s =
     (let s1 = s\<lparr>statistics := (statistics s)\<lparr>finished_calls := finished_calls (statistics s) + 1\<rparr>\<rparr>;
          (granted, r) = release (agents s1);
          s2 = set_proc p Finished (s1\<lparr>agents := r\<rparr>)
      in case granted of None \<Rightarrow> s2 | Some q \<Rightarrow> enqueue q (now s2) s2)"

text \<open>
  \<^verbatim>\<open>customer\<close> (source lines 10 to 28), one resumption of caller \<open>p\<close> in state \<open>pr\<close>.
\<close>

definition customer :: "config \<Rightarrow> generator \<Rightarrow> nat \<Rightarrow> process \<Rightarrow> sim_state \<Rightarrow> error + sim_state" where
  "customer c g p pr s =
     (case pr of
        Caller_new i \<Rightarrow>
          (let arrival_time = now s;
               (granted, r) = request p (now s) (agents s)
           in if granted then start_call c g p i arrival_time (s\<lparr>agents := r\<rparr>)
              else Inr (set_proc p (Caller_queued i arrival_time) (s\<lparr>agents := r\<rparr>)))
      | Caller_queued i arrival_time \<Rightarrow> start_call c g p i arrival_time s
      | Caller_in_service i \<Rightarrow> Inr (end_call p s)
      | _ \<Rightarrow> Inr s)"

text \<open>
  Modelled from the spec: resumption of the process bound to an event.  A finished
  process is never resumed; an event for it, or for an unknown handle, has no effect.
\<close>

definition resume_process :: "config \<Rightarrow> generator \<Rightarrow> nat \<Rightarrow> sim_state \<Rightarrow> error + sim_state" where
  "resume_process c g p s =
     (if length (procs s) \<le> p then Inr s
      else case procs s ! p of
        Generator_new \<Rightarrow> generate_customers c g p None s
      | Generator_waiting i \<Rightarrow> generate_customers c g p (Some i) s
      | Sampler \<Rightarrow> watch_queue p 1 s
      | Finished \<Rightarrow> Inr s
      | pr \<Rightarrow> customer c g p pr s)"

text \<open>
  Modelled from the spec: one iteration of \<^verbatim>\<open>run_until(horizon)\<close> (section 4.1).  The
  loop stops when the queue is empty or the next due time exceeds the horizon; it fails
  with ClockRegression if the extracted due time is before the current time; otherwise it
  advances the clock and resumes the process.
\<close>

definition step :: "config \<Rightarrow> generator \<Rightarrow> sim_state \<Rightarrow> step_result" where
  "step c g s =
     (case pop_min (event_queue s) of
        None \<Rightarrow> Halt
      | Some (e, q) \<Rightarrow>
          if sim_time c < due_time e then Halt
          else if due_time e < now s then Fault ClockRegression
          else (case resume_process c g (resume e) (s\<lparr>now := due_time e, event_queue := q\<rparr>) of
                  Inl err \<Rightarrow> Fault err
                | Inr s' \<Rightarrow> Continue s'))"

text \<open>
  \<^verbatim>\<open>env.run(until=sim_time)\<close> (source line 78).  The loop need not end (infinitely many
  events may be due before the horizon), so not returning is the value \<open>None\<close>.
\<close>

partial_function (option) run_until ::
  "config \<Rightarrow> generator \<Rightarrow> sim_state \<Rightarrow> (error + sim_state) option" where
  "run_until c g s =
     (case step c g s of
        Halt \<Rightarrow> Some (Inr s)
      | Fault err \<Rightarrow> Some (Inl err)
      | Continue s' \<Rightarrow> run_until c g s')"

declare run_until.simps [code]

text \<open>The state after \<open>n\<close> scheduler steps, if the run gets that far.\<close>

primrec trace_state :: "config \<Rightarrow> generator \<Rightarrow> nat \<Rightarrow> sim_state \<Rightarrow> sim_state option" where
  "trace_state c g 0 s = Some s"
| "trace_state c g (Suc n) s =
     (case step c g s of Continue s' \<Rightarrow> trace_state c g n s' | _ \<Rightarrow> None)"

section \<open>The driver\<close>

text \<open>
  Source lines 61 to 75 of \<^verbatim>\<open>run_simulation\<close>: seed the generator, create the
  environment, the resource and the statistics, and start the two processes.  The argument
  \<open>ambient\<close> is the state the global generator happens to be in when the function is called.
\<close>

definition initial_state :: "config \<Rightarrow> rng \<Rightarrow> sim_state" where
  "initial_state c ambient =
     spawn Sampler (spawn Generator_new
       \<lparr>now = 0, event_queue = [], next_sequence = 0, procs = [],
        agents = \<lparr>capacity = num_agents c, in_use = 0, wait_queue = []\<rparr>,
        statistics = \<lparr>arrived_calls = 0, finished_calls = 0, wait_times = [], queue_sizes = []\<rparr>,
        random_state = random_seed (seed c) ambient\<rparr>)"

text \<open>Source lines 61 to 78: the statistics at the end of the run.\<close>

definition simulate :: "config \<Rightarrow> generator \<Rightarrow> rng \<Rightarrow> (error + stats) option" where
  "simulate c g ambient =
     (case run_until c g (initial_state c ambient) of
        None \<Rightarrow> None
      | Some (Inl err) \<Rightarrow> Some (Inl err)
      | Some (Inr s) \<Rightarrow> Some (Inr (statistics s)))"

text \<open>
  Source lines 80 to 92: the metrics.  The two divisions by \<^verbatim>\<open>sim_time\<close> and
  \<^verbatim>\<open>num_agents\<close> raise ZeroDivisionError on zero.
\<close>

definition compute_metrics :: "config \<Rightarrow> stats \<Rightarrow> error + metrics" where
  "compute_metrics c st =
     (let aw = (if wait_times st \<noteq> []
                then sum_list (wait_times st) / of_nat (length (wait_times st)) else 0);
          aq = (if queue_sizes st \<noteq> []
                then of_int (sum_list (queue_sizes st)) / of_nat (length (queue_sizes st)) else 0)
      in if sim_time c = 0 then Inl ZeroDivisionError
         else let tp = of_int (finished_calls st) / sim_time c
              in if num_agents c = 0 then Inl ZeroDivisionError
                 else Inr \<lparr>avg_wait = aw, avg_queue = aq, throughput = tp,
                           utilization = tp * service_time c / of_int (num_agents c)\<rparr>)"

text \<open>
  Python's built-in \<^verbatim>\<open>round(x, n)\<close> is not part of the repository.  It is called on
  floats, and at a decimal tie its result depends on the binary representation of the
  argument: \<^verbatim>\<open>round(0.0005, 3)\<close> is \<^verbatim>\<open>0.001\<close> and \<^verbatim>\<open>round(2.675, 2)\<close> is \<^verbatim>\<open>2.67\<close>.
  Exact rationals have no such representation, so the function is a parameter of the
  model: a \<open>rounding\<close> gives, for a value and a number of decimal places, the rounded value.
\<close>

type_synonym rounding = "rat \<Rightarrow> nat \<Rightarrow> rat"

text \<open>
  Source lines 94 to 102: the returned dictionary.  The four \<^verbatim>\<open>round\<close> calls of lines 96
  to 99 are applied here, inside \<^verbatim>\<open>run_simulation\<close>.
\<close>

definition make_record :: "rounding \<Rightarrow> config \<Rightarrow> stats \<Rightarrow> metrics \<Rightarrow> output_record" where
  "make_record rnd c st m =
     \<lparr>Agents = num_agents c,
      Average_Wait = rnd (avg_wait m) 2,
      Average_Queue_Length = rnd (avg_queue m) 2,
      Throughput = rnd (throughput m) 3,
      Utilization = rnd (utilization m) 3,
      Arrived_Calls = arrived_calls st,
      Finished_Calls = finished_calls st\<rparr>"

text \<open>\<^verbatim>\<open>run_simulation\<close> (source lines 60 to 102).\<close>

definition run_simulation ::
  "config \<Rightarrow> generator \<Rightarrow> rounding \<Rightarrow> rng \<Rightarrow> (error + output_record) option" where
  "run_simulation c g rnd ambient =
     (case simulate c g ambient of
        None \<Rightarrow> None
      | Some (Inl err) \<Rightarrow> Some (Inl err)
      | Some (Inr st) \<Rightarrow>
          (case compute_metrics c st of
             Inl err \<Rightarrow> Some (Inl err)
           | Inr m \<Rightarrow> Some (Inr (make_record rnd c st m))))"

section \<open>Reference definitions and example inputs\<close>

text \<open>
  The arithmetic mean in the words of the specification (section 4.5): the sum divided by
  the number of samples, and 0 for no samples.
\<close>

definition mean :: "rat list \<Rightarrow> rat" where
  "mean xs = (if xs = [] then 0 else sum_list xs / of_nat (length xs))"

text \<open>
  A small run used to evaluate the model: one agent, a mean arrival gap of 1, a mean
  service time of 4 and a horizon of 3.  The stream of draws repeats eight values; with it
  three callers arrive, two of them queue, two calls finish and the third caller is still in
  service at the horizon.
\<close>

definition example_draws :: generator where
  "example_draws sd k = [1/2, 1/4, 1/2, 1, 2, 1/8, 1, 1] ! (k mod 8)"

definition example_config :: config where
  "example_config =
     \<lparr>sim_time = 3, num_agents = 1, arrival_gap = 1, service_time = 4, seed = 10\<rparr>"

definition example_ambient :: rng where
  "example_ambient = \<lparr>rng_seed = 0, rng_calls = 7\<rparr>"

definition example_stats :: stats where
  "example_stats =
     \<lparr>arrived_calls = 3, finished_calls = 2, wait_times = [0, 7/4, 5/4],
      queue_sizes = [0, 1, 2, 1]\<rparr>"

text \<open>
  What rounding to \<open>n\<close> decimal places guarantees on exact values: the result is a
  multiple of \<open>10\<^sup>-\<^sup>n\<close> and at most half a unit of the last place away from the argument.
  Which of the two neighbours is taken at a tie is left open.
\<close>

definition nearest_rounding :: "rounding \<Rightarrow> bool" where
  "nearest_rounding rnd \<longleftrightarrow>
     (\<forall>x n. (\<exists>k::int. rnd x n = of_int k / 10 ^ n) \<and> \<bar>rnd x n - x\<bar> \<le> 1 / (2 * 10 ^ n))"

text \<open>
  One such rounding, with ties to the even neighbour.  It is used to evaluate the example
  runs, none of which has a metric at a tie.
\<close>

definition round_half_even :: "rat \<Rightarrow> int" where
  "round_half_even x =
     (let f = \<lfloor>x\<rfloor>; d = x - of_int f
      in if d < 1 / 2 then f else if 1 / 2 < d then f + 1 else if even f then f else f + 1)"

definition example_round :: rounding where
  "example_round x n = of_int (round_half_even (x * 10 ^ n)) / 10 ^ n"

section \<open>Invariants of the run\<close>

text \<open>
  A process is a caller in the system while its \<^verbatim>\<open>customer\<close> body has not returned; it
  wants an agent while it is queued or in service.
\<close>

fun is_caller :: "process \<Rightarrow> bool" where
  "is_caller (Caller_new _) = True"
| "is_caller (Caller_queued _ _) = True"
| "is_caller (Caller_in_service _) = True"
| "is_caller _ = False"

fun wants_agent :: "process \<Rightarrow> bool" where
  "wants_agent (Caller_queued _ _) = True"
| "wants_agent (Caller_in_service _) = True"
| "wants_agent _ = False"

text \<open>The number of processes of the table that satisfy a predicate.\<close>

definition count_procs :: "(process \<Rightarrow> bool) \<Rightarrow> sim_state \<Rightarrow> int" where
  "count_procs P s = int (length (filter P (procs s)))"

text \<open>Every arrival that has been counted is a finished call or a caller still in the system.\<close>

definition calls_inv :: "sim_state \<Rightarrow> bool" where
  "calls_inv s \<longleftrightarrow>
     finished_calls (statistics s) + count_procs is_caller s = arrived_calls (statistics s)"

text \<open>
  The resource invariant of section 3 for capacity \<open>k\<close>, together with the bookkeeping that
  makes it inductive: every unit in use and every pending request belongs to a caller that
  is queued or in service.
\<close>

definition resource_inv :: "int \<Rightarrow> sim_state \<Rightarrow> bool" where
  "resource_inv k s \<longleftrightarrow>
     capacity (agents s) = k \<and>
     0 \<le> in_use (agents s) \<and> in_use (agents s) \<le> capacity (agents s) \<and>
     (wait_queue (agents s) \<noteq> [] \<longrightarrow> in_use (agents s) = capacity (agents s)) \<and>
     in_use (agents s) + int (length (wait_queue (agents s))) = count_procs wants_agent s"

text \<open>Recorded waits are non-negative, and no queued caller has arrived in the future.\<close>

definition wait_inv :: "sim_state \<Rightarrow> bool" where
  "wait_inv s \<longleftrightarrow>
     (\<forall>w \<in> set (wait_times (statistics s)). 0 \<le> w) \<and>
     (\<forall>pr \<in> set (procs s). \<forall>i t. pr = Caller_queued i t \<longrightarrow> t \<le> now s)"

text \<open>The queue-size samples start with the sample 0.\<close>

definition first_sample_inv :: "sim_state \<Rightarrow> bool" where
  "first_sample_inv s \<longleftrightarrow>
     queue_sizes (statistics s) \<noteq> [] \<and> hd (queue_sizes (statistics s)) = 0"

text \<open>
  The state after the first resumption of the arrival generator: the sampler is due at
  time 0 and the generator at time \<open>d\<close>; nothing has been recorded yet.
\<close>

definition after_first_step :: "rat \<Rightarrow> int \<Rightarrow> rng \<Rightarrow> sim_state" where
  "after_first_step d k r =
     \<lparr>now = 0,
      event_queue = [\<lparr>due_time = 0, sequence = 1, resume = 1\<rparr>,
                     \<lparr>due_time = d, sequence = 2, resume = 0\<rparr>],
      next_sequence = 3, procs = [Generator_waiting 0, Sampler],
      agents = \<lparr>capacity = k, in_use = 0, wait_queue = []\<rparr>,
      statistics = \<lparr>arrived_calls = 0, finished_calls = 0, wait_times = [], queue_sizes = []\<rparr>,
      random_state = r\<rparr>"

text \<open>
  Sequence numbers are handed out in scheduling order: the pending events carry distinct
  numbers, all below the counter.
\<close>

definition seq_inv :: "sim_state \<Rightarrow> bool" where
  "seq_inv s \<longleftrightarrow>
     distinct (map sequence (event_queue s)) \<and>
     (\<forall>e \<in> set (event_queue s). sequence e < next_sequence s)"

text \<open>
  A configuration with a zero service time and a horizon before the first arrival of the
  example stream.
\<close>

definition zero_service_config :: config where
  "zero_service_config =
     \<lparr>sim_time = 1/4, num_agents = 1, arrival_gap = 1, service_time = 0, seed = 10\<rparr>"

text \<open>
  A state in which two new callers are due at the same instant and one agent is free; the
  wake-up of the second caller (sequence 5) is stored in front of the wake-up of the first
  caller (sequence 4).
\<close>

definition tie_state :: sim_state where
  "tie_state =
     \<lparr>now = 1,
      event_queue = [\<lparr>due_time = 1, sequence = 5, resume = 3\<rparr>,
                     \<lparr>due_time = 1, sequence = 4, resume = 2\<rparr>],
      next_sequence = 6,
      procs = [Generator_waiting 2, Sampler, Caller_new 1, Caller_new 2],
      agents = \<lparr>capacity = 1, in_use = 0, wait_queue = []\<rparr>,
      statistics = \<lparr>arrived_calls = 2, finished_calls = 0, wait_times = [], queue_sizes = [0]\<rparr>,
      random_state = \<lparr>rng_seed = 10, rng_calls = 3\<rparr>\<rparr>"

section \<open>Determinism\<close>

text \<open>
  C1.  The result of \<^verbatim>\<open>run_simulation\<close> is a function of its arguments alone: the state
  in which the global random generator happens to be when the function is called has no
  influence, because line 61 reseeds it.  Hence two calls with identical arguments, the
  second of which starts from whatever generator state the first one left behind, return
  identical records.
\<close>

theorem run_simulation_deterministic:
  "run_simulation c g rnd ambient1 = run_simulation c g rnd ambient2"
  by (simp add: run_simulation_def simulate_def initial_state_def random_seed_def)

section \<open>Metrics\<close>

lemma of_int_sum_list: "(of_int (sum_list xs) :: rat) = sum_list (map of_int xs)"
  by (induction xs) simp_all

text \<open>
  C2.  For a positive horizon and a positive capacity the metrics reduction does not fail:
  the average wait is the mean of the wait samples, the average queue length the mean of
  the queue-size samples (0 for an empty list in both cases), the throughput is the
  finished count divided by the horizon and the utilisation is the throughput times the mean
  service time divided by the capacity.  On the empty statistics all four metrics are 0.
\<close>

theorem metrics_reduction:
  assumes "0 < sim_time c" and "0 < num_agents c"
  shows "compute_metrics c st =
           Inr \<lparr>avg_wait = mean (wait_times st),
                avg_queue = mean (map of_int (queue_sizes st)),
                throughput = of_int (finished_calls st) / sim_time c,
                utilization =
                  (of_int (finished_calls st) / sim_time c) * service_time c
                    / of_int (num_agents c)\<rparr>
         \<and> (wait_times st = [] \<and> queue_sizes st = [] \<and> finished_calls st = 0 \<longrightarrow>
              compute_metrics c st =
                Inr \<lparr>avg_wait = 0, avg_queue = 0, throughput = 0, utilization = 0\<rparr>)"
  using assms by (simp add: compute_metrics_def mean_def of_int_sum_list Let_def)

theorem metrics_reduction_witness:
  "0 < sim_time example_config \<and> 0 < num_agents example_config \<and>
   compute_metrics example_config example_stats =
     Inr \<lparr>avg_wait = 1, avg_queue = 1, throughput = 2/3, utilization = 8/3\<rparr>"
  using metrics_reduction [of example_config example_stats]
  by (simp add: example_config_def example_stats_def mean_def)

section \<open>Sampling\<close>

text \<open>
  C7, as the code has it.  The sampling expression \<^verbatim>\<open>random.expovariate(1 / m)\<close> fails
  exactly for \<open>m = 0\<close>, with the ZeroDivisionError of the division \<^verbatim>\<open>1 / m\<close>.  For every
  other mean it returns a value and advances the generator: a non-negative duration for
  a positive mean, a non-positive number for a negative mean.  A negative mean is
  rejected only afterwards, by the scheduler, as a negative delay, and only if the draw is
  not zero.
\<close>

theorem next_exponential_cases:
  "(m = 0 \<longrightarrow> next_exponential g m r = Inl ZeroDivisionError) \<and>
   (m \<noteq> 0 \<longrightarrow> next_exponential g m r =
      Inr (g (rng_seed r) (rng_calls r) * m, r\<lparr>rng_calls := rng_calls r + 1\<rparr>)) \<and>
   (0 < m \<and> 0 \<le> g (rng_seed r) (rng_calls r) \<longrightarrow>
      (\<exists>d r'. next_exponential g m r = Inr (d, r') \<and> 0 \<le> d)) \<and>
   (m < 0 \<and> 0 \<le> g (rng_seed r) (rng_calls r) \<longrightarrow>
      (\<exists>d r'. next_exponential g m r = Inr (d, r') \<and> d \<le> 0)) \<and>
   (m < 0 \<and> 0 < g (rng_seed (random_state s)) (rng_calls (random_state s)) \<longrightarrow>
      hold g p m s = Inl InvalidDelay)"
  by (auto simp: next_exponential_def expovariate_def hold_def schedule_def
      mult_nonneg_nonpos mult_pos_neg)

theorem next_exponential_cases_witness:
  "next_exponential example_draws 0 example_ambient = Inl ZeroDivisionError \<and>
   next_exponential example_draws 4 example_ambient = Inr (4, \<lparr>rng_seed = 0, rng_calls = 8\<rparr>) \<and>
   (\<exists>d r'. next_exponential example_draws 4 example_ambient = Inr (d, r') \<and> 0 \<le> d) \<and>
   (\<exists>d r'. next_exponential example_draws (- 4) example_ambient = Inr (d, r') \<and> d \<le> 0) \<and>
   hold example_draws 0 (- 4) (initial_state example_config example_ambient) = Inl InvalidDelay"
  using next_exponential_cases [of 0 example_draws example_ambient]
    next_exponential_cases [of 4 example_draws example_ambient]
    next_exponential_cases [of "- 4" example_draws example_ambient
      "initial_state example_config example_ambient" 0]
  by (simp add: example_draws_def example_ambient_def initial_state_def spawn_def enqueue_def
      random_seed_def)

text \<open>
  The claim as stated fails for a negative mean: sampling with mean \<open>-1\<close> returns the
  value \<open>-1/2\<close> instead of failing.
\<close>

theorem next_exponential_negative_mean:
  "next_exponential example_draws (- 1) \<lparr>rng_seed = 10, rng_calls = 0\<rparr> =
     Inr (- (1 / 2), \<lparr>rng_seed = 10, rng_calls = 1\<rparr>)"
  by (simp add: next_exponential_def expovariate_def example_draws_def)

section \<open>Steps preserve the invariants\<close>

lemma length_filter_update_nat:
  "p < length xs \<Longrightarrow>
     length (filter P (xs[p := y])) + (if P (xs ! p) then 1 else 0) =
       length (filter P xs) + (if P y then 1 else 0)"
proof (induction xs arbitrary: p)
  case Nil
  then show ?case by simp
next
  case (Cons x xs)
  show ?case
  proof (cases p)
    case 0
    then show ?thesis by simp
  next
    case (Suc n)
    with Cons.prems have "n < length xs" by simp
    from Cons.IH [OF this] Suc show ?thesis by simp
  qed
qed

lemma length_filter_update:
  "p < length xs \<Longrightarrow>
     int (length (filter P (xs[p := y]))) =
       int (length (filter P xs)) - (if P (xs ! p) then 1 else 0) + (if P y then 1 else 0)"
  using length_filter_update_nat [of p xs P y] by (simp split: if_splits)

lemma hold_Inr:
  assumes "hold g p m s = Inr s'"
  shows "\<exists>d r. 0 \<le> d \<and> s' = enqueue p (now s + d) (s\<lparr>random_state := r\<rparr>)"
proof -
  from assms obtain d r where
    "next_exponential g m (random_state s) = Inr (d, r)"
    and sch: "schedule p d (s\<lparr>random_state := r\<rparr>) = Inr s'"
    by (auto simp: hold_def split: sum.splits)
  from sch have "0 \<le> d" and "s' = enqueue p (now s + d) (s\<lparr>random_state := r\<rparr>)"
    by (auto simp: schedule_def split: if_splits)
  then show ?thesis by blast
qed

lemma schedule_Inr:
  "schedule p d s = Inr s' \<Longrightarrow> 0 \<le> d \<and> s' = enqueue p (now s + d) s"
  by (auto simp: schedule_def split: if_splits)

lemma count_procs_enqueue [simp]: "count_procs P (enqueue p t s) = count_procs P s"
  by (simp add: count_procs_def enqueue_def)

lemma count_procs_set_proc:
  "p < length (procs s) \<Longrightarrow>
     count_procs P (set_proc p pr s) =
       count_procs P s - (if P (procs s ! p) then 1 else 0) + (if P pr then 1 else 0)"
  by (simp add: count_procs_def set_proc_def length_filter_update)

lemma calls_inv_resume:
  assumes "resume_process c g p s = Inr s'" and "calls_inv s"
  shows "calls_inv s'"
proof (cases "length (procs s) \<le> p")
  case True
  with assms show ?thesis by (simp add: resume_process_def)
next
  case False
  then have p: "p < length (procs s)" by simp
  show ?thesis
  proof (cases "procs s ! p")
    case Generator_new
    with assms p show ?thesis
      by (auto simp: resume_process_def generate_customers_def calls_inv_def count_procs_def
          enqueue_def set_proc_def length_filter_update dest!: hold_Inr)
  next
    case (Generator_waiting i)
    with assms p show ?thesis
      by (auto simp: resume_process_def generate_customers_def calls_inv_def count_procs_def
          enqueue_def set_proc_def spawn_def length_filter_update nth_append Let_def dest!: hold_Inr)
  next
    case Sampler
    with assms p show ?thesis
      by (auto simp: resume_process_def watch_queue_def calls_inv_def count_procs_def
          enqueue_def dest!: schedule_Inr)
  next
    case (Caller_new i)
    with assms p show ?thesis
      by (auto simp: resume_process_def customer_def start_call_def request_def calls_inv_def
          count_procs_def enqueue_def set_proc_def length_filter_update Let_def
          split: if_splits dest!: hold_Inr)
  next
    case (Caller_queued i t)
    with assms p show ?thesis
      by (auto simp: resume_process_def customer_def start_call_def calls_inv_def
          count_procs_def enqueue_def set_proc_def length_filter_update Let_def
          split: if_splits dest!: hold_Inr)
  next
    case (Caller_in_service i)
    with assms p show ?thesis
      by (auto simp: resume_process_def customer_def end_call_def release_def calls_inv_def
          count_procs_def enqueue_def set_proc_def length_filter_update Let_def
          split: if_splits list.splits)
  next
    case Finished
    with assms p show ?thesis by (simp add: resume_process_def)
  qed
qed


lemma filter_witness:
  "p < length xs \<Longrightarrow> P (xs ! p) \<Longrightarrow> 1 \<le> int (length (filter P xs))"
proof -
  assume "p < length xs" and "P (xs ! p)"
  then have "xs ! p \<in> set (filter P xs)" by simp
  then have "filter P xs \<noteq> []" by fastforce
  then show ?thesis by (cases "filter P xs") simp_all
qed

lemma resource_inv_resume:
  assumes "resume_process c g p s = Inr s'" and "resource_inv k s"
  shows "resource_inv k s'"
proof (cases "length (procs s) \<le> p")
  case True
  with assms show ?thesis by (simp add: resume_process_def)
next
  case False
  then have p: "p < length (procs s)" by simp
  show ?thesis
  proof (cases "procs s ! p")
    case Generator_new
    with assms p show ?thesis
      by (auto simp: resume_process_def generate_customers_def resource_inv_def count_procs_def
          enqueue_def set_proc_def length_filter_update dest!: hold_Inr)
  next
    case (Generator_waiting i)
    with assms p show ?thesis
      by (auto simp: resume_process_def generate_customers_def resource_inv_def count_procs_def
          enqueue_def set_proc_def spawn_def length_filter_update nth_append Let_def dest!: hold_Inr)
  next
    case Sampler
    with assms p show ?thesis
      by (auto simp: resume_process_def watch_queue_def resource_inv_def count_procs_def
          enqueue_def dest!: schedule_Inr)
  next
    case (Caller_new i)
    with assms p show ?thesis
      by (auto simp: resume_process_def customer_def start_call_def request_def resource_inv_def
          count_procs_def enqueue_def set_proc_def length_filter_update Let_def
          split: if_splits dest!: hold_Inr)
  next
    case (Caller_queued i t)
    with assms p show ?thesis
      by (auto simp: resume_process_def customer_def start_call_def resource_inv_def
          count_procs_def enqueue_def set_proc_def length_filter_update Let_def
          split: if_splits dest!: hold_Inr)
  next
    case (Caller_in_service i)
    from p Caller_in_service have "1 \<le> int (length (filter wants_agent (procs s)))"
      by (intro filter_witness [of p]) simp_all
    with assms p Caller_in_service show ?thesis
      by (auto simp: resume_process_def customer_def end_call_def release_def resource_inv_def
          count_procs_def enqueue_def set_proc_def length_filter_update Let_def
          split: if_splits list.splits)
  next
    case Finished
    with assms p show ?thesis by (simp add: resume_process_def)
  qed
qed

lemma set_update_subset: "x \<in> set (xs[p := y]) \<Longrightarrow> x = y \<or> x \<in> set xs"
  using set_update_subset_insert [of xs p y] by auto

lemma wait_inv_resume:
  assumes "resume_process c g p s = Inr s'" and "wait_inv s"
  shows "wait_inv s'"
proof (cases "length (procs s) \<le> p")
  case True
  with assms show ?thesis by (simp add: resume_process_def)
next
  case False
  then have p: "p < length (procs s)" by simp
  show ?thesis
  proof (cases "procs s ! p")
    case Generator_new
    with assms p show ?thesis
      by (auto simp: resume_process_def generate_customers_def wait_inv_def
          enqueue_def set_proc_def dest!: hold_Inr set_update_subset)
  next
    case (Generator_waiting i)
    with assms p show ?thesis
      by (auto simp: resume_process_def generate_customers_def wait_inv_def
          enqueue_def set_proc_def spawn_def Let_def dest!: hold_Inr set_update_subset)
  next
    case Sampler
    with assms p show ?thesis
      by (auto simp: resume_process_def watch_queue_def wait_inv_def
          enqueue_def dest!: schedule_Inr)
  next
    case (Caller_new i)
    with assms p show ?thesis
      by (auto simp: resume_process_def customer_def start_call_def request_def wait_inv_def
          enqueue_def set_proc_def Let_def
          split: if_splits dest!: hold_Inr set_update_subset)
  next
    case (Caller_queued i t)
    with p have "Caller_queued i t \<in> set (procs s)" by (metis nth_mem)
    with assms(2) have "t \<le> now s" by (auto simp: wait_inv_def)
    with assms p Caller_queued show ?thesis
      by (auto simp: resume_process_def customer_def start_call_def wait_inv_def
          enqueue_def set_proc_def Let_def
          split: if_splits dest!: hold_Inr set_update_subset)
  next
    case (Caller_in_service i)
    with assms p show ?thesis
      by (auto simp: resume_process_def customer_def end_call_def release_def wait_inv_def
          enqueue_def set_proc_def Let_def
          split: if_splits list.splits dest!: set_update_subset)
  next
    case Finished
    with assms p show ?thesis by (simp add: resume_process_def)
  qed
qed

lemma step_Continue:
  assumes "step c g s = Continue s'"
  shows "\<exists>e q. pop_min (event_queue s) = Some (e, q) \<and> due_time e \<le> sim_time c \<and>
           now s \<le> due_time e \<and>
           resume_process c g (resume e) (s\<lparr>now := due_time e, event_queue := q\<rparr>) = Inr s'"
  using assms
  by (auto simp: step_def not_less split: option.splits if_splits sum.splits)

lemma calls_inv_step: "step c g s = Continue s' \<Longrightarrow> calls_inv s \<Longrightarrow> calls_inv s'"
proof -
  assume st: "step c g s = Continue s'" and inv: "calls_inv s"
  from step_Continue [OF st] obtain e :: event and q where
    r: "resume_process c g (resume e) (s\<lparr>now := due_time e, event_queue := q\<rparr>) = Inr s'"
    by blast
  from inv have "calls_inv (s\<lparr>now := due_time e, event_queue := q\<rparr>)"
    by (simp add: calls_inv_def count_procs_def)
  with r show ?thesis by (rule calls_inv_resume)
qed

lemma resource_inv_step: "step c g s = Continue s' \<Longrightarrow> resource_inv k s \<Longrightarrow> resource_inv k s'"
proof -
  assume st: "step c g s = Continue s'" and inv: "resource_inv k s"
  from step_Continue [OF st] obtain e :: event and q where
    r: "resume_process c g (resume e) (s\<lparr>now := due_time e, event_queue := q\<rparr>) = Inr s'"
    by blast
  from inv have "resource_inv k (s\<lparr>now := due_time e, event_queue := q\<rparr>)"
    by (simp add: resource_inv_def count_procs_def)
  with r show ?thesis by (rule resource_inv_resume)
qed

lemma wait_inv_step: "step c g s = Continue s' \<Longrightarrow> wait_inv s \<Longrightarrow> wait_inv s'"
proof -
  assume st: "step c g s = Continue s'" and inv: "wait_inv s"
  from step_Continue [OF st] obtain e :: event and q where
    le: "now s \<le> due_time e" and
    r: "resume_process c g (resume e) (s\<lparr>now := due_time e, event_queue := q\<rparr>) = Inr s'"
    by blast
  from inv le have "wait_inv (s\<lparr>now := due_time e, event_queue := q\<rparr>)"
    by (fastforce simp: wait_inv_def)
  with r show ?thesis by (rule wait_inv_resume)
qed

lemma trace_invariant:
  assumes "\<And>s s'. I s \<Longrightarrow> step c g s = Continue s' \<Longrightarrow> I s'"
  shows "I s \<Longrightarrow> trace_state c g n s = Some t \<Longrightarrow> I t"
proof (induction n arbitrary: s)
  case 0
  then show ?case by simp
next
  case (Suc n)
  from Suc.prems(2) obtain s' where st: "step c g s = Continue s'"
    and tr: "trace_state c g n s' = Some t"
    by (auto split: step_result.splits)
  from assms [OF Suc.prems(1) st] tr show ?case by (rule Suc.IH)
qed

lemma run_until_trace_aux:
  assumes "run_until c g s = Some y"
  shows "\<forall>t. y = Inr t \<longrightarrow> (\<exists>n. trace_state c g n s = Some t \<and> step c g t = Halt)"
proof (rule run_until.raw_induct
    [where P = "\<lambda>c g s y. \<forall>t. y = Inr t \<longrightarrow>
        (\<exists>n. trace_state c g n s = Some t \<and> step c g t = Halt)", OF _ assms])
  fix f :: "config \<Rightarrow> generator \<Rightarrow> sim_state \<Rightarrow> (error + sim_state) option"
  fix c g s y
  assume IH: "\<And>c g s y. f c g s = Some y \<Longrightarrow>
      \<forall>t. y = Inr t \<longrightarrow> (\<exists>n. trace_state c g n s = Some t \<and> step c g t = Halt)"
  assume eq: "(case step c g s of Halt \<Rightarrow> Some (Inr s) | Fault err \<Rightarrow> Some (Inl err)
      | Continue s' \<Rightarrow> f c g s') = Some y"
  show "\<forall>t. y = Inr t \<longrightarrow> (\<exists>n. trace_state c g n s = Some t \<and> step c g t = Halt)"
  proof (cases "step c g s")
    case Halt
    with eq have "y = Inr s" by simp
    with Halt show ?thesis by (auto intro: exI [of _ 0])
  next
    case (Fault e)
    with eq show ?thesis by auto
  next
    case (Continue s')
    with eq have "f c g s' = Some y" by simp
    then have h: "\<forall>t. y = Inr t \<longrightarrow> (\<exists>n. trace_state c g n s' = Some t \<and> step c g t = Halt)"
      by (rule IH)
    show ?thesis
    proof (intro allI impI)
      fix t
      assume "y = Inr t"
      with h obtain n where "trace_state c g n s' = Some t" and halt: "step c g t = Halt"
        by blast
      with Continue have "trace_state c g (Suc n) s = Some t" by simp
      with halt show "\<exists>n. trace_state c g n s = Some t \<and> step c g t = Halt" by blast
    qed
  qed
qed

lemma run_until_trace:
  assumes "run_until c g s = Some (Inr t)"
  shows "\<exists>n. trace_state c g n s = Some t \<and> step c g t = Halt"
  using run_until_trace_aux [OF assms] by blast

lemma initial_invs:
  "calls_inv (initial_state c a)" "wait_inv (initial_state c a)"
  "0 \<le> num_agents c \<Longrightarrow> resource_inv (num_agents c) (initial_state c a)"
  by (simp_all add: calls_inv_def wait_inv_def resource_inv_def initial_state_def spawn_def
      enqueue_def count_procs_def)


lemma simulate_trace:
  assumes "simulate c g a = Some (Inr st)"
  shows "\<exists>n s. trace_state c g n (initial_state c a) = Some s \<and> step c g s = Halt \<and>
           statistics s = st"
proof -
  from assms obtain s where "run_until c g (initial_state c a) = Some (Inr s)"
    and "statistics s = st"
    by (auto simp: simulate_def split: option.splits sum.splits)
  with run_until_trace [of c g "initial_state c a" s] show ?thesis by blast
qed

section \<open>Arrivals and finished calls\<close>

text \<open>
  C3.  After any number of scheduler steps of any run the finished count is at most the
  arrived count, and the difference is the number of callers still in the system (new,
  queued or in service); the same holds for the statistics with which a run ends, where
  the two counts need not be equal.
\<close>

theorem finished_le_arrived:
  "(trace_state c g n (initial_state c a) = Some s \<longrightarrow>
      finished_calls (statistics s) \<le> arrived_calls (statistics s) \<and>
      arrived_calls (statistics s) - finished_calls (statistics s) = count_procs is_caller s) \<and>
   (simulate c g a = Some (Inr st) \<longrightarrow> finished_calls st \<le> arrived_calls st)"
proof -
  have inv: "calls_inv t" if "trace_state c g m (initial_state c a) = Some t" for m t
    using calls_inv_step initial_invs(1) that by (rule trace_invariant)
  have le: "finished_calls (statistics t) \<le> arrived_calls (statistics t)" if "calls_inv t" for t
    using that by (simp add: calls_inv_def count_procs_def)
  have "finished_calls st \<le> arrived_calls st" if "simulate c g a = Some (Inr st)"
    using simulate_trace [OF that] inv le by blast
  moreover have "arrived_calls (statistics s) - finished_calls (statistics s) = count_procs is_caller s"
    if "trace_state c g n (initial_state c a) = Some s"
    using inv [OF that] by (simp add: calls_inv_def)
  ultimately show ?thesis using inv le by blast
qed

theorem finished_le_arrived_witness:
  "(\<exists>s. trace_state example_config example_draws 9 (initial_state example_config example_ambient) = Some s \<and>
      finished_calls (statistics s) \<le> arrived_calls (statistics s) \<and>
      arrived_calls (statistics s) - finished_calls (statistics s) = count_procs is_caller s) \<and>
   simulate example_config example_draws example_ambient = Some (Inr example_stats) \<and>
   finished_calls example_stats < arrived_calls example_stats"
proof -
  have "trace_state example_config example_draws 9
          (initial_state example_config example_ambient) \<noteq> None"
    by code_simp
  then obtain s where s: "trace_state example_config example_draws 9
          (initial_state example_config example_ambient) = Some s"
    by blast
  have sim: "simulate example_config example_draws example_ambient = Some (Inr example_stats)"
    by code_simp
  from finished_le_arrived [of example_config example_draws 9 example_ambient s example_stats]
    s sim show ?thesis
    by (simp add: example_stats_def)
qed



section \<open>Resource bounds\<close>

text \<open>
  C4.  For every configuration with a non-negative agent count, after any number of
  scheduler steps the resource has its configured capacity, \<open>0 \<le> in_use \<le> capacity\<close>
  holds, and the wait queue is non-empty only when \<open>in_use = capacity\<close>.
\<close>

theorem resource_bounds:
  assumes "0 \<le> num_agents c"
    and "trace_state c g n (initial_state c a) = Some s"
  shows "capacity (agents s) = num_agents c \<and>
         0 \<le> in_use (agents s) \<and> in_use (agents s) \<le> capacity (agents s) \<and>
         (wait_queue (agents s) \<noteq> [] \<longrightarrow> in_use (agents s) = capacity (agents s))"
proof -
  have "resource_inv (num_agents c) s"
    using resource_inv_step initial_invs(3) [OF assms(1)] assms(2) by (rule trace_invariant)
  then show ?thesis by (simp add: resource_inv_def)
qed

theorem resource_bounds_witness:
  "0 \<le> num_agents example_config \<and>
   (\<exists>s. trace_state example_config example_draws 10
           (initial_state example_config example_ambient) = Some s \<and>
        length (wait_queue (agents s)) = 2 \<and> in_use (agents s) = 1 \<and> capacity (agents s) = 1 \<and>
        0 \<le> in_use (agents s) \<and> in_use (agents s) \<le> capacity (agents s) \<and>
        (wait_queue (agents s) \<noteq> [] \<longrightarrow> in_use (agents s) = capacity (agents s)))"
proof -
  have n: "0 \<le> num_agents example_config" by (simp add: example_config_def)
  have "case trace_state example_config example_draws 10
          (initial_state example_config example_ambient) of
          None \<Rightarrow> False
        | Some s \<Rightarrow> length (wait_queue (agents s)) = 2 \<and> in_use (agents s) = 1"
    by code_simp
  then obtain s where s: "trace_state example_config example_draws 10
          (initial_state example_config example_ambient) = Some s"
    and q: "length (wait_queue (agents s)) = 2" "in_use (agents s) = 1"
    by (auto split: option.splits)
  from resource_bounds [OF n s] n s q show ?thesis
    by (simp add: example_config_def)
qed

section \<open>Waiting times\<close>

lemma start_call_wait:
  "start_call c g p i t s = Inr s' \<Longrightarrow>
     wait_times (statistics s') = wait_times (statistics s) @ [now s - t]"
  by (auto simp: start_call_def Let_def enqueue_def set_proc_def dest!: hold_Inr)

text \<open>
  C10.  Every recorded wait is non-negative, after any number of scheduler steps and in
  the statistics of a finished run.  The wait that \<^verbatim>\<open>customer\<close> records when it is granted
  an agent is the current time minus its arrival time, and the arrival time of a queued
  caller is never after the current time, so a grant never precedes the arrival.
\<close>

theorem waits_nonnegative:
  "(trace_state c g n (initial_state c a) = Some s \<longrightarrow>
      (\<forall>w \<in> set (wait_times (statistics s)). 0 \<le> w) \<and>
      (\<forall>i t. Caller_queued i t \<in> set (procs s) \<longrightarrow> t \<le> now s)) \<and>
   (simulate c g a = Some (Inr st) \<longrightarrow> (\<forall>w \<in> set (wait_times st). 0 \<le> w)) \<and>
   (start_call c g p i t u = Inr u' \<longrightarrow>
      wait_times (statistics u') = wait_times (statistics u) @ [now u - t])"
proof -
  have inv: "wait_inv u" if "trace_state c g m (initial_state c a) = Some u" for m u
    using wait_inv_step initial_invs(2) that by (rule trace_invariant)
  have "\<forall>w \<in> set (wait_times st). 0 \<le> w" if "simulate c g a = Some (Inr st)"
    using simulate_trace [OF that] inv by (auto simp: wait_inv_def)
  then show ?thesis
    using inv start_call_wait by (auto simp: wait_inv_def)
qed

theorem waits_nonnegative_witness:
  "(\<exists>s. trace_state example_config example_draws 10
           (initial_state example_config example_ambient) = Some s \<and>
        now s = 2 \<and> Caller_queued 2 (3/4) \<in> set (procs s) \<and>
        (\<forall>w \<in> set (wait_times (statistics s)). 0 \<le> w) \<and>
        (\<forall>i t. Caller_queued i t \<in> set (procs s) \<longrightarrow> t \<le> now s)) \<and>
   (\<exists>st. simulate example_config example_draws example_ambient = Some (Inr st) \<and>
      wait_times st = [0, 7/4, 5/4] \<and> (\<forall>w \<in> set (wait_times st). 0 \<le> w)) \<and>
   (\<exists>u'. start_call example_config example_draws 0 1 0
            (initial_state example_config example_ambient) = Inr u' \<and>
         wait_times (statistics u') = [0])"
proof -
  have "case trace_state example_config example_draws 10
          (initial_state example_config example_ambient) of
          None \<Rightarrow> False
        | Some s \<Rightarrow> now s = 2 \<and> Caller_queued 2 (3/4) \<in> set (procs s)"
    by code_simp
  then obtain s where s: "trace_state example_config example_draws 10
          (initial_state example_config example_ambient) = Some s"
    and q: "now s = 2" "Caller_queued 2 (3/4) \<in> set (procs s)"
    by (auto split: option.splits)
  have sim: "simulate example_config example_draws example_ambient = Some (Inr example_stats)"
    by code_simp
  have "case start_call example_config example_draws 0 1 0
          (initial_state example_config example_ambient) of
          Inl e \<Rightarrow> False | Inr u' \<Rightarrow> True"
    by code_simp
  then obtain u' where u: "start_call example_config example_draws 0 1 0
          (initial_state example_config example_ambient) = Inr u'"
    by (auto split: sum.splits)
  have i: "wait_times (statistics (initial_state example_config example_ambient)) = []"
    "now (initial_state example_config example_ambient) = 0"
    by (simp_all add: initial_state_def spawn_def enqueue_def)
  from waits_nonnegative [of example_config example_draws 10 example_ambient s example_stats
      0 1 0 "initial_state example_config example_ambient" u']
    s q sim u i show ?thesis
    by (simp add: example_stats_def)
qed

section \<open>The first queue sample\<close>

lemma step_initial:
  "step c g (initial_state c a) =
     (if sim_time c < 0 then Halt
      else if arrival_gap c = 0 then Fault ZeroDivisionError
      else if g (seed c) 0 * arrival_gap c < 0 then Fault InvalidDelay
      else Continue (after_first_step (g (seed c) 0 * arrival_gap c) (num_agents c)
                       \<lparr>rng_seed = seed c, rng_calls = 1\<rparr>))"
  by (simp add: step_def initial_state_def spawn_def enqueue_def earlier_def resume_process_def
      generate_customers_def hold_def next_exponential_def expovariate_def schedule_def
      set_proc_def random_seed_def after_first_step_def)

lemma step_second:
  assumes "0 \<le> d"
  shows "step c g (after_first_step d k r) =
     (if sim_time c < 0 then Halt
      else Continue
        \<lparr>now = 0,
         event_queue = [\<lparr>due_time = d, sequence = 2, resume = 0\<rparr>,
                        \<lparr>due_time = 1, sequence = 3, resume = 1\<rparr>],
         next_sequence = 4, procs = [Generator_waiting 0, Sampler],
         agents = \<lparr>capacity = k, in_use = 0, wait_queue = []\<rparr>,
         statistics = \<lparr>arrived_calls = 0, finished_calls = 0, wait_times = [], queue_sizes = [0]\<rparr>,
         random_state = r\<rparr>)"
  using assms
  by (auto simp: step_def enqueue_def earlier_def resume_process_def watch_queue_def schedule_def
      after_first_step_def)

lemma queue_sizes_resume:
  assumes "resume_process c g p s = Inr s'"
  shows "\<exists>xs. queue_sizes (statistics s') = queue_sizes (statistics s) @ xs"
proof (cases "length (procs s) \<le> p")
  case True
  with assms show ?thesis by (simp add: resume_process_def)
next
  case False
  then have p: "p < length (procs s)" by simp
  show ?thesis
  proof (cases "procs s ! p")
    case Generator_new
    with assms p show ?thesis
      by (auto simp: resume_process_def generate_customers_def
          enqueue_def set_proc_def dest!: hold_Inr)
  next
    case (Generator_waiting i)
    with assms p show ?thesis
      by (auto simp: resume_process_def generate_customers_def
          enqueue_def set_proc_def spawn_def Let_def dest!: hold_Inr)
  next
    case Sampler
    with assms p show ?thesis
      by (auto simp: resume_process_def watch_queue_def enqueue_def dest!: schedule_Inr)
  next
    case (Caller_new i)
    with assms p show ?thesis
      by (auto simp: resume_process_def customer_def start_call_def request_def
          enqueue_def set_proc_def Let_def split: if_splits dest!: hold_Inr)
  next
    case (Caller_queued i t)
    with assms p show ?thesis
      by (auto simp: resume_process_def customer_def start_call_def
          enqueue_def set_proc_def Let_def split: if_splits dest!: hold_Inr)
  next
    case (Caller_in_service i)
    with assms p show ?thesis
      by (auto simp: resume_process_def customer_def end_call_def release_def
          enqueue_def set_proc_def Let_def split: if_splits list.splits)
  next
    case Finished
    with assms p show ?thesis by (simp add: resume_process_def)
  qed
qed

lemma first_sample_step:
  assumes "step c g s = Continue s'" and "first_sample_inv s"
  shows "first_sample_inv s'"
proof -
  from step_Continue [OF assms(1)] obtain e :: event and q where
    "resume_process c g (resume e) (s\<lparr>now := due_time e, event_queue := q\<rparr>) = Inr s'"
    by blast
  from queue_sizes_resume [OF this] obtain xs where
    "queue_sizes (statistics s') = queue_sizes (statistics s) @ xs" by auto
  with assms(2) show ?thesis by (simp add: first_sample_inv_def)
qed


lemma trace_two:
  assumes "trace_state c g (Suc (Suc n)) (initial_state c a) = Some s"
  shows "\<exists>s2. trace_state c g n s2 = Some s \<and> queue_sizes (statistics s2) = [0] \<and>
           now s2 = 0 \<and> arrived_calls (statistics s2) = 0"
proof -
  from assms obtain s1 s2 where 1: "step c g (initial_state c a) = Continue s1"
    and 2: "step c g s1 = Continue s2" and 3: "trace_state c g n s2 = Some s"
    by (auto split: step_result.splits)
  let ?d = "g (seed c) 0 * arrival_gap c"
  from 1 have d: "0 \<le> ?d"
    and s1: "s1 = after_first_step ?d (num_agents c) \<lparr>rng_seed = seed c, rng_calls = 1\<rparr>"
    by (auto simp: step_initial split: if_splits)
  from 2 have "queue_sizes (statistics s2) = [0] \<and> now s2 = 0 \<and> arrived_calls (statistics s2) = 0"
    unfolding s1 step_second [OF d] by (auto split: if_splits)
  with 3 show ?thesis by blast
qed

lemma trace_ge_two:
  assumes "2 \<le> n" and "trace_state c g n (initial_state c a) = Some s"
  shows "first_sample_inv s"
proof -
  from assms(1) obtain m where n: "n = Suc (Suc m)"
    by (metis Suc_le_D numeral_2_eq_2 Suc_le_mono)
  from trace_two [OF assms(2) [unfolded n]] obtain s2 where
    t: "trace_state c g m s2 = Some s" and "queue_sizes (statistics s2) = [0]" by blast
  then have "first_sample_inv s2" by (simp add: first_sample_inv_def)
  with first_sample_step show ?thesis using t by (rule trace_invariant)
qed

lemma halt_after_two:
  assumes "0 \<le> sim_time c" and "trace_state c g n (initial_state c a) = Some s"
    and "step c g s = Halt"
  shows "2 \<le> n"
proof (rule ccontr)
  assume "\<not> 2 \<le> n"
  then consider "n = 0" | "n = Suc 0" by linarith
  then show False
  proof cases
    case 1
    with assms show ?thesis by (auto simp: step_initial split: if_splits)
  next
    case 2
    with assms(2) obtain s1 where 1: "step c g (initial_state c a) = Continue s1" and "s1 = s"
      by (auto split: step_result.splits)
    let ?d = "g (seed c) 0 * arrival_gap c"
    from 1 have d: "0 \<le> ?d"
      and s1: "s1 = after_first_step ?d (num_agents c) \<lparr>rng_seed = seed c, rng_calls = 1\<rparr>"
      by (auto simp: step_initial split: if_splits)
    from assms(3) \<open>s1 = s\<close> have "step c g s1 = Halt" by simp
    then have "sim_time c < 0"
      unfolding s1 step_second [OF d] by (simp split: if_splits)
    with assms(1) show ?thesis by simp
  qed
qed

text \<open>
  C9.  With a positive horizon, a non-zero arrival gap and a non-negative first delay
  the run reaches, after its first two scheduler steps, a state at virtual time 0 in which
  the sampler has recorded the single sample 0 and no caller has arrived.  From the
  second step on the list of queue-size samples is non-empty and starts with 0.  Hence
  the statistics of every finished run with a positive horizon have a non-empty sample
  list that starts with 0, and the average queue length is the sum of the samples divided
  by their number.
\<close>

theorem first_sample_at_zero:
  "(0 < sim_time c \<and> arrival_gap c \<noteq> 0 \<and> 0 \<le> g (seed c) 0 * arrival_gap c \<longrightarrow>
      (\<exists>s2. trace_state c g 2 (initial_state c a) = Some s2 \<and> now s2 = 0 \<and>
         queue_sizes (statistics s2) = [0] \<and> arrived_calls (statistics s2) = 0)) \<and>
   (2 \<le> n \<and> trace_state c g n (initial_state c a) = Some s \<longrightarrow>
      queue_sizes (statistics s) \<noteq> [] \<and> hd (queue_sizes (statistics s)) = 0) \<and>
   (0 < sim_time c \<and> simulate c g a = Some (Inr st) \<longrightarrow>
      queue_sizes st \<noteq> [] \<and> hd (queue_sizes st) = 0 \<and>
      (\<forall>m. compute_metrics c st = Inr m \<longrightarrow>
         avg_queue m = of_int (sum_list (queue_sizes st)) / of_nat (length (queue_sizes st))))"
proof (intro conjI impI)
  assume h: "0 < sim_time c \<and> arrival_gap c \<noteq> 0 \<and> 0 \<le> g (seed c) 0 * arrival_gap c"
  let ?d = "g (seed c) 0 * arrival_gap c"
  from h have d: "0 \<le> ?d" by simp
  from h have n: "\<not> sim_time c < 0" "\<not> ?d < 0" "arrival_gap c \<noteq> 0"
    by (simp_all add: not_less)
  have 1: "step c g (initial_state c a) =
      Continue (after_first_step ?d (num_agents c) \<lparr>rng_seed = seed c, rng_calls = 1\<rparr>)"
    unfolding step_initial using n by (simp only: if_False)
  have "\<exists>s2. step c g (after_first_step ?d (num_agents c) \<lparr>rng_seed = seed c, rng_calls = 1\<rparr>) =
      Continue s2"
    unfolding step_second [OF d] using n by (simp only: if_False) blast
  then obtain s2 where 2: "step c g
      (after_first_step ?d (num_agents c) \<lparr>rng_seed = seed c, rng_calls = 1\<rparr>) = Continue s2"
    by blast
  have t: "trace_state c g (Suc (Suc 0)) (initial_state c a) = Some s2"
    by (simp add: 1 2 del: One_nat_def)
  from trace_two [OF t] t
  show "\<exists>s2. trace_state c g 2 (initial_state c a) = Some s2 \<and> now s2 = 0 \<and>
         queue_sizes (statistics s2) = [0] \<and> arrived_calls (statistics s2) = 0"
    by (auto simp: numeral_2_eq_2)
next
  assume "2 \<le> n \<and> trace_state c g n (initial_state c a) = Some s"
  then have "first_sample_inv s" using trace_ge_two by blast
  then show "queue_sizes (statistics s) \<noteq> []" and "hd (queue_sizes (statistics s)) = 0"
    by (simp_all add: first_sample_inv_def)
next
  assume h: "0 < sim_time c \<and> simulate c g a = Some (Inr st)"
  then obtain n s where t: "trace_state c g n (initial_state c a) = Some s"
    and halt: "step c g s = Halt" and st: "statistics s = st"
    using simulate_trace by blast
  from h have "0 \<le> sim_time c" by simp
  from halt_after_two [OF this t halt] t have "first_sample_inv s" by (rule trace_ge_two)
  with st show ne: "queue_sizes st \<noteq> []" and "hd (queue_sizes st) = 0"
    by (auto simp: first_sample_inv_def)
  from ne show "\<forall>m. compute_metrics c st = Inr m \<longrightarrow>
         avg_queue m = of_int (sum_list (queue_sizes st)) / of_nat (length (queue_sizes st))"
    by (auto simp: compute_metrics_def Let_def split: if_splits)
qed

theorem first_sample_at_zero_witness:
  "0 < sim_time example_config \<and> arrival_gap example_config \<noteq> 0 \<and>
   0 \<le> example_draws (seed example_config) 0 * arrival_gap example_config \<and>
   (\<exists>s2. trace_state example_config example_draws 2
            (initial_state example_config example_ambient) = Some s2 \<and> now s2 = 0 \<and>
         queue_sizes (statistics s2) = [0] \<and> arrived_calls (statistics s2) = 0) \<and>
   (\<exists>s. trace_state example_config example_draws 10
            (initial_state example_config example_ambient) = Some s \<and>
         queue_sizes (statistics s) = [0, 1, 2] \<and> hd (queue_sizes (statistics s)) = 0) \<and>
   simulate example_config example_draws example_ambient = Some (Inr example_stats) \<and>
   queue_sizes example_stats \<noteq> [] \<and> hd (queue_sizes example_stats) = 0 \<and>
   (\<exists>m. compute_metrics example_config example_stats = Inr m \<and> avg_queue m = 1)"
proof -
  have c: "0 < sim_time example_config \<and> arrival_gap example_config \<noteq> 0 \<and>
      0 \<le> example_draws (seed example_config) 0 * arrival_gap example_config"
    by (simp add: example_config_def example_draws_def)
  have "case trace_state example_config example_draws 10
          (initial_state example_config example_ambient) of
          None \<Rightarrow> False
        | Some s \<Rightarrow> queue_sizes (statistics s) = [0, 1, 2]"
    by code_simp
  then obtain s where s: "trace_state example_config example_draws 10
          (initial_state example_config example_ambient) = Some s"
    and q: "queue_sizes (statistics s) = [0, 1, 2]"
    by (auto split: option.splits)
  have sim: "simulate example_config example_draws example_ambient = Some (Inr example_stats)"
    by code_simp
  have m: "compute_metrics example_config example_stats =
      Inr \<lparr>avg_wait = 1, avg_queue = 1, throughput = 2/3, utilization = 8/3\<rparr>"
    by (simp add: compute_metrics_def example_config_def example_stats_def)
  from first_sample_at_zero [of example_config example_draws example_ambient 10 s example_stats]
    c s q sim m show ?thesis
    by (simp add: example_stats_def)
qed

section \<open>Rounding of the output record\<close>

lemma round_half_even_bounds:
  "\<bar>of_int (round_half_even x) - x\<bar> \<le> 1 / 2"
  unfolding round_half_even_def Let_def
  by (auto simp: abs_if not_less) linarith+

lemma example_round_error: "\<bar>example_round x n - x\<bar> \<le> 1 / (2 * 10 ^ n)"
proof -
  let ?a = "of_int (round_half_even (x * 10 ^ n)) :: rat"
  let ?t = "10 ^ n :: rat"
  have p: "0 < ?t" by simp
  have "\<bar>?a - x * ?t\<bar> \<le> 1 / 2"
    by (rule round_half_even_bounds)
  then have "\<bar>?a - x * ?t\<bar> / ?t \<le> (1 / 2) / ?t"
    by (rule divide_right_mono) simp
  moreover have "example_round x n - x = (?a - x * ?t) / ?t"
    by (simp add: example_round_def diff_divide_distrib)
  then have "\<bar>example_round x n - x\<bar> = \<bar>?a - x * ?t\<bar> / ?t"
    by (simp only: abs_divide abs_of_pos [OF p])
  moreover have "(1 / 2) / ?t = 1 / (2 * ?t)" by simp
  ultimately show ?thesis by (simp only:)
qed

lemma example_round_grid: "\<exists>k::int. example_round x n = of_int k / 10 ^ n"
  by (auto simp: example_round_def)

lemma nearest_example_round: "nearest_rounding example_round"
  unfolding nearest_rounding_def using example_round_error example_round_grid by blast

lemma nearest_rounding_2:
  assumes "nearest_rounding rnd"
  shows "(\<exists>k::int. rnd x 2 = of_int k / 100) \<and> \<bar>rnd x 2 - x\<bar> \<le> 1 / 200"
proof -
  from assms have "(\<exists>k::int. rnd x 2 = of_int k / 10 ^ 2) \<and> \<bar>rnd x 2 - x\<bar> \<le> 1 / (2 * 10 ^ 2)"
    unfolding nearest_rounding_def by blast
  then show ?thesis by simp
qed

lemma nearest_rounding_3:
  assumes "nearest_rounding rnd"
  shows "(\<exists>k::int. rnd x 3 = of_int k / 1000) \<and> \<bar>rnd x 3 - x\<bar> \<le> 1 / 2000"
proof -
  from assms have "(\<exists>k::int. rnd x 3 = of_int k / 10 ^ 3) \<and> \<bar>rnd x 3 - x\<bar> \<le> 1 / (2 * 10 ^ 3)"
    unfolding nearest_rounding_def by blast
  then show ?thesis by simp
qed

lemma run_simulation_Inr:
  assumes "run_simulation c g rnd a = Some (Inr r)"
  shows "\<exists>st m. simulate c g a = Some (Inr st) \<and> compute_metrics c st = Inr m \<and>
           r = make_record rnd c st m"
  using assms by (auto simp: run_simulation_def split: option.splits sum.splits)

lemma compute_metrics_Inr:
  assumes "compute_metrics c st = Inr m"
  shows "sim_time c \<noteq> 0 \<and> num_agents c \<noteq> 0 \<and>
         avg_wait m = mean (wait_times st) \<and>
         avg_queue m = mean (map of_int (queue_sizes st)) \<and>
         throughput m = of_int (finished_calls st) / sim_time c \<and>
         utilization m = throughput m * service_time c / of_int (num_agents c)"
  using assms
  by (auto simp: compute_metrics_def mean_def of_int_sum_list Let_def split: if_splits)

text \<open>
  The claim as stated fails: the rounding is done by \<^verbatim>\<open>run_simulation\<close> itself.  The
  record that the example run returns holds the throughput 0.667 and the utilisation
  2.667, while the metrics computed from its statistics are 2/3 and 8/3.
\<close>

theorem run_simulation_returns_rounded:
  "run_simulation example_config example_draws example_round example_ambient =
     Some (Inr \<lparr>Agents = 1, Average_Wait = 1, Average_Queue_Length = 1,
                Throughput = 667 / 1000, Utilization = 2667 / 1000,
                Arrived_Calls = 3, Finished_Calls = 2\<rparr>) \<and>
   simulate example_config example_draws example_ambient = Some (Inr example_stats) \<and>
   compute_metrics example_config example_stats =
     Inr \<lparr>avg_wait = 1, avg_queue = 1, throughput = 2 / 3, utilization = 8 / 3\<rparr> \<and>
   (667 / 1000 :: rat) \<noteq> 2 / 3 \<and> (2667 / 1000 :: rat) \<noteq> 8 / 3"
proof -
  have "run_simulation example_config example_draws example_round example_ambient =
     Some (Inr \<lparr>Agents = 1, Average_Wait = 1, Average_Queue_Length = 1,
                Throughput = 667 / 1000, Utilization = 2667 / 1000,
                Arrived_Calls = 3, Finished_Calls = 2\<rparr>)"
    by code_simp
  moreover have "simulate example_config example_draws example_ambient = Some (Inr example_stats)"
    by code_simp
  moreover have "compute_metrics example_config example_stats =
     Inr \<lparr>avg_wait = 1, avg_queue = 1, throughput = 2 / 3, utilization = 8 / 3\<rparr>"
    by (simp add: compute_metrics_def example_config_def example_stats_def)
  ultimately show ?thesis by simp
qed

text \<open>
  C8, as the code has it.  Every record returned by \<^verbatim>\<open>run_simulation\<close> is built by
  \<^verbatim>\<open>run_simulation\<close> itself from the unrounded metrics of lines 80 to 92, which are the
  exact means and quotients: the returned dictionary (lines 94 to 102) holds the average
  wait and the average queue length passed through \<^verbatim>\<open>round(x, 2)\<close> and the throughput
  and the utilisation passed through \<^verbatim>\<open>round(x, 3)\<close>, so the caller gets only rounded
  values.  For a rounding to the nearest multiple each of these fields is a multiple of
  \<open>1/100\<close> or \<open>1/1000\<close> and differs from the unrounded metric by at most half a unit of
  the last place.
\<close>

theorem output_rounding:
  assumes "run_simulation c g rnd a = Some (Inr r)"
  shows "\<exists>st m. simulate c g a = Some (Inr st) \<and> compute_metrics c st = Inr m \<and>
           r = make_record rnd c st m \<and>
           avg_wait m = mean (wait_times st) \<and>
           avg_queue m = mean (map of_int (queue_sizes st)) \<and>
           throughput m = of_int (finished_calls st) / sim_time c \<and>
           utilization m = throughput m * service_time c / of_int (num_agents c) \<and>
           Average_Wait r = rnd (avg_wait m) 2 \<and>
           Average_Queue_Length r = rnd (avg_queue m) 2 \<and>
           Throughput r = rnd (throughput m) 3 \<and>
           Utilization r = rnd (utilization m) 3 \<and>
           (nearest_rounding rnd \<longrightarrow>
              (\<exists>k::int. Average_Wait r = of_int k / 100) \<and>
              (\<exists>k::int. Average_Queue_Length r = of_int k / 100) \<and>
              (\<exists>k::int. Throughput r = of_int k / 1000) \<and>
              (\<exists>k::int. Utilization r = of_int k / 1000) \<and>
              \<bar>Average_Wait r - avg_wait m\<bar> \<le> 1 / 200 \<and>
              \<bar>Average_Queue_Length r - avg_queue m\<bar> \<le> 1 / 200 \<and>
              \<bar>Throughput r - throughput m\<bar> \<le> 1 / 2000 \<and>
              \<bar>Utilization r - utilization m\<bar> \<le> 1 / 2000)"
proof -
  from run_simulation_Inr [OF assms] obtain st m where
    sim: "simulate c g a = Some (Inr st)" and cm: "compute_metrics c st = Inr m"
    and r: "r = make_record rnd c st m" by blast
  have f: "Average_Wait r = rnd (avg_wait m) 2"
    "Average_Queue_Length r = rnd (avg_queue m) 2"
    "Throughput r = rnd (throughput m) 3"
    "Utilization r = rnd (utilization m) 3"
    by (simp_all add: r make_record_def)
  have near: "(\<exists>k::int. Average_Wait r = of_int k / 100) \<and>
              (\<exists>k::int. Average_Queue_Length r = of_int k / 100) \<and>
              (\<exists>k::int. Throughput r = of_int k / 1000) \<and>
              (\<exists>k::int. Utilization r = of_int k / 1000) \<and>
              \<bar>Average_Wait r - avg_wait m\<bar> \<le> 1 / 200 \<and>
              \<bar>Average_Queue_Length r - avg_queue m\<bar> \<le> 1 / 200 \<and>
              \<bar>Throughput r - throughput m\<bar> \<le> 1 / 2000 \<and>
              \<bar>Utilization r - utilization m\<bar> \<le> 1 / 2000"
    if n: "nearest_rounding rnd"
    unfolding f
    using nearest_rounding_2 [OF n, of "avg_wait m"] nearest_rounding_2 [OF n, of "avg_queue m"]
      nearest_rounding_3 [OF n, of "throughput m"] nearest_rounding_3 [OF n, of "utilization m"]
    by blast
  from compute_metrics_Inr [OF cm] sim cm r f near show ?thesis
    by blast
qed

theorem output_rounding_witness:
  "run_simulation example_config example_draws example_round example_ambient =
     Some (Inr \<lparr>Agents = 1, Average_Wait = 1, Average_Queue_Length = 1,
                Throughput = 667 / 1000, Utilization = 2667 / 1000,
                Arrived_Calls = 3, Finished_Calls = 2\<rparr>) \<and>
   nearest_rounding example_round \<and>
   (\<exists>m. compute_metrics example_config example_stats = Inr m \<and>
        throughput m = 2 / 3 \<and> utilization m = 8 / 3 \<and>
        example_round (throughput m) 3 = 667 / 1000 \<and>
        example_round (utilization m) 3 = 2667 / 1000 \<and>
        \<bar>667 / 1000 - throughput m\<bar> \<le> 1 / 2000 \<and> \<bar>2667 / 1000 - utilization m\<bar> \<le> 1 / 2000)"
proof -
  let ?r = "\<lparr>Agents = 1, Average_Wait = 1, Average_Queue_Length = 1,
             Throughput = 667 / 1000, Utilization = 2667 / 1000,
             Arrived_Calls = 3, Finished_Calls = 2\<rparr>"
  have run: "run_simulation example_config example_draws example_round example_ambient =
      Some (Inr ?r)"
    by code_simp
  have sim: "simulate example_config example_draws example_ambient = Some (Inr example_stats)"
    by code_simp
  from output_rounding [OF run] sim run nearest_example_round show ?thesis
    by (auto simp: example_config_def example_stats_def)
qed

section \<open>Invalid configurations\<close>

text \<open>
  The claim as stated fails: a configuration with service time 0 is not rejected.  With
  a horizon before the first arrival the run returns an ordinary record.
\<close>

theorem zero_service_time_accepted:
  "service_time zero_service_config \<le> 0 \<and>
   run_simulation zero_service_config example_draws example_round example_ambient =
     Some (Inr \<lparr>Agents = 1, Average_Wait = 0, Average_Queue_Length = 0, Throughput = 0,
                Utilization = 0, Arrived_Calls = 0, Finished_Calls = 0\<rparr>)"
  by code_simp

lemma run_until_Fault:
  "step c g s = Fault e \<Longrightarrow> run_until c g s = Some (Inl e)"
  by (subst run_until.simps) simp

lemma run_simulation_first_fault:
  assumes "step c g (initial_state c a) = Fault e"
  shows "run_simulation c g rnd a = Some (Inl e)"
  using run_until_Fault [OF assms] by (simp add: run_simulation_def simulate_def)

text \<open>
  C6, as the code has it.  \<^verbatim>\<open>run_simulation\<close> does not validate its arguments before
  the run.  With a positive horizon, a zero arrival gap fails with ZeroDivisionError and a
  negative arrival gap with a positive first draw fails as a negative delay, both in the
  first scheduler step, when the arrival generator is first resumed.  A zero horizon or a
  zero agent count never yields an output record.  A zero service time fails only when a
  caller starts its call.
\<close>

theorem configuration_faults:
  "(arrival_gap c = 0 \<and> 0 < sim_time c \<longrightarrow>
      step c g (initial_state c a) = Fault ZeroDivisionError \<and>
      run_simulation c g rnd a = Some (Inl ZeroDivisionError)) \<and>
   (arrival_gap c < 0 \<and> 0 < g (seed c) 0 \<and> 0 < sim_time c \<longrightarrow>
      step c g (initial_state c a) = Fault InvalidDelay \<and>
      run_simulation c g rnd a = Some (Inl InvalidDelay)) \<and>
   (sim_time c = 0 \<or> num_agents c = 0 \<longrightarrow> (\<forall>r. run_simulation c g rnd a \<noteq> Some (Inr r))) \<and>
   (service_time c = 0 \<longrightarrow> start_call c g p i t s = Inl ZeroDivisionError)"
proof (intro conjI impI)
  assume h: "arrival_gap c = 0 \<and> 0 < sim_time c"
  then show 1: "step c g (initial_state c a) = Fault ZeroDivisionError"
    by (simp add: step_initial)
  then show "run_simulation c g rnd a = Some (Inl ZeroDivisionError)"
    by (rule run_simulation_first_fault)
next
  assume h: "arrival_gap c < 0 \<and> 0 < g (seed c) 0 \<and> 0 < sim_time c"
  then have "g (seed c) 0 * arrival_gap c < 0" by (simp add: mult_pos_neg)
  with h show 2: "step c g (initial_state c a) = Fault InvalidDelay"
    unfolding step_initial by (simp only: if_True if_False) (simp add: not_less [symmetric])
  then show "run_simulation c g rnd a = Some (Inl InvalidDelay)"
    by (rule run_simulation_first_fault)
next
  assume h: "sim_time c = 0 \<or> num_agents c = 0"
  show "\<forall>r. run_simulation c g rnd a \<noteq> Some (Inr r)"
  proof (intro allI notI)
    fix r
    assume "run_simulation c g rnd a = Some (Inr r)"
    from run_simulation_Inr [OF this] obtain st m where "compute_metrics c st = Inr m" by blast
    from compute_metrics_Inr [OF this] h show False by simp
  qed
next
  assume "service_time c = 0"
  then show "start_call c g p i t s = Inl ZeroDivisionError"
    by (simp add: start_call_def hold_def next_exponential_def Let_def)
qed

theorem configuration_faults_witness:
  "run_simulation (example_config\<lparr>arrival_gap := 0\<rparr>) example_draws example_round example_ambient =
     Some (Inl ZeroDivisionError) \<and>
   run_simulation (example_config\<lparr>arrival_gap := - 1\<rparr>) example_draws example_round example_ambient =
     Some (Inl InvalidDelay) \<and>
   (\<forall>r. run_simulation (example_config\<lparr>sim_time := 0\<rparr>) example_draws example_round example_ambient \<noteq>
      Some (Inr r)) \<and>
   (\<forall>r. run_simulation (example_config\<lparr>num_agents := 0\<rparr>) example_draws example_round example_ambient \<noteq>
      Some (Inr r)) \<and>
   start_call zero_service_config example_draws 2 1 (1/2) tie_state = Inl ZeroDivisionError"
  using configuration_faults [where c = "example_config\<lparr>arrival_gap := 0\<rparr>" and g = example_draws
        and a = example_ambient and rnd = example_round]
    configuration_faults [where c = "example_config\<lparr>arrival_gap := - 1\<rparr>" and g = example_draws
        and a = example_ambient and rnd = example_round]
    configuration_faults [where c = "example_config\<lparr>sim_time := 0\<rparr>" and g = example_draws
        and a = example_ambient and rnd = example_round]
    configuration_faults [where c = "example_config\<lparr>num_agents := 0\<rparr>" and g = example_draws
        and a = example_ambient and rnd = example_round]
    configuration_faults [where c = zero_service_config and g = example_draws
        and a = example_ambient and rnd = example_round and p = 2 and i = 1 and t = "1/2"
        and s = tie_state]
  by (simp add: example_config_def example_draws_def zero_service_config_def)

section \<open>Tie-break between simultaneous events\<close>









lemma seq_inv_cong:
  "event_queue s' = event_queue s \<Longrightarrow> next_sequence s' = next_sequence s \<Longrightarrow>
     seq_inv s' = seq_inv s"
  by (simp add: seq_inv_def)











end
